theory Spec2Isabelle
  imports Main
begin

section \<open>The session manager of \<^verbatim>\<open>core/db/session.py\<close>\<close>

text \<open>
  \<^verbatim>\<open>SessionManager\<close> hands out one shared database session to nested callers.
  It keeps the session (\<^verbatim>\<open>async_session\<close>) and a counter of nested acquisitions
  (\<^verbatim>\<open>recursion_depth\<close>). The spec calls the class \<^emph>\<open>SessionScope\<close>, its methods
  \<^verbatim>\<open>async_start\<close> and \<^verbatim>\<open>async_close\<close> \<^emph>\<open>acquire\<close> and \<^emph>\<open>release\<close>, and the two
  fields \<^emph>\<open>activeSession\<close> and \<^emph>\<open>depth\<close>.

  The methods are modelled by explicit state passing. The object's fields are the record
  \<open>session_manager\<close>; everything the methods touch outside the object (the engine
  constructor, the session factory, the sessions' \<^verbatim>\<open>close\<close>, the logger, the event
  registry and the connections) is the record \<open>world\<close>. A method takes both and
  returns both, with its result or the exception it raised.
\<close>

subsection \<open>Data\<close>

text \<open>\<^verbatim>\<open>DBConfig\<close>: the two fields the class reads.\<close>

record db_config =
  url :: string
  debug_sql :: bool

text \<open>
  What \<^verbatim>\<open>create_async_engine(url, echo=..., echo_pool=...)\<close> was called with, and what
  \<^verbatim>\<open>async_sessionmaker(engine, expire_on_commit=False)\<close> was called with.
\<close>

record engine =
  engine_url :: string
  echo :: bool
  echo_pool :: "string option"

record sessionmaker =
  bind :: engine
  expire_on_commit :: bool

text \<open>
  A session and a DBAPI connection are opaque objects; the number is the object's
  identity, so that equality of two \<open>session\<close> values is reference equality.
\<close>

datatype session = Session nat

datatype connection = Connection nat

text \<open>
  The two fatal errors of the spec's taxonomy. In the source they are whatever the
  engine constructor, the session factory and a session's \<^verbatim>\<open>close()\<close> raise; the
  class has no \<^verbatim>\<open>try\<close>.
\<close>

datatype exn = ConfigurationError | ConnectionError

text \<open>
  Log records. The three messages of the source are
  \<^verbatim>\<open>f"Connected to database {url}"\<close> (debug),
  \<^verbatim>\<open>f"Re-entering database session (depth: {depth}), potential bug"\<close> and
  \<^verbatim>\<open>"Closing database session that was never opened"\<close> (warnings, both with
  \<^verbatim>\<open>stack_info=True\<close>); a message keeps its arguments instead of the formatted text.
\<close>

datatype message =
  Connected_to_database string
| Re_entering_database_session int
| Closing_never_opened

datatype log_record =
  Debug message
| Warning message bool

text \<open>
  The environment. The first four fields are the behaviour of the backend, which the
  class does not control: which URLs the engine constructor refuses, which calls of the
  session factory fail (the \<open>k\<close>-th call, counted from 0, raises
  \<open>session_fault k\<close> when that is not \<open>None\<close>), and which calls of a session's
  \<^verbatim>\<open>close()\<close> fail (\<open>close_fault\<close>, counted likewise over all sessions). The
  other fields record what has happened: how often the factory was called, the sessions
  it built, the sessions on which \<^verbatim>\<open>close()\<close> was called (whether it returned or
  raised), the registered event listeners, the statements executed on connections, and
  the log; all in order of occurrence.
\<close>

record world =
  url_malformed :: "string \<Rightarrow> bool"
  backend_unsupported :: "string \<Rightarrow> bool"
  session_fault :: "nat \<Rightarrow> exn option"
  close_fault :: "nat \<Rightarrow> exn option"
  factory_calls :: nat
  created :: "session list"
  close_calls :: "session list"
  listeners :: "(engine \<times> string) list"
  executed :: "(connection \<times> string) list"
  logged :: "log_record list"

text \<open>The fields \<^verbatim>\<open>__init__\<close> sets.\<close>

record session_manager =
  config :: db_config
  async_engine :: engine
  AsyncSessionClass :: sessionmaker
  async_session :: "session option"
  recursion_depth :: int

subsection \<open>The collaborators\<close>

text \<open>
  Modelled from the spec: \<^verbatim>\<open>create_async_engine\<close> is SQLAlchemy's, not this
  repository's. The spec's \<^verbatim>\<open>configure(url, debugEnabled)\<close> "validates and stores
  connection parameters; fails with \<^verbatim>\<open>ConfigurationError\<close> if the URL is malformed or
  the backend is unsupported". Which URLs are malformed or unsupported is the
  environment's.
\<close>

definition create_async_engine ::
  "string \<Rightarrow> bool \<Rightarrow> string option \<Rightarrow> world \<Rightarrow> exn + engine" where
  "create_async_engine u e ep w =
     (if url_malformed w u \<or> backend_unsupported w u then Inl ConfigurationError
      else Inr \<lparr>engine_url = u, echo = e, echo_pool = ep\<rparr>)"

text \<open>
  Modelled from the spec: calling the session factory, \<^verbatim>\<open>self.AsyncSessionClass()\<close>.
  The spec's \<^verbatim>\<open>newSession()\<close> "returns a fresh session bound to the backend" or
  fails. Every call is counted; a successful one builds a session with a new identity.
\<close>

definition new_session :: "sessionmaker \<Rightarrow> world \<Rightarrow> (exn + session) \<times> world" where
  "new_session f w =
     (let w' = w\<lparr>factory_calls := Suc (factory_calls w)\<rparr>
      in case session_fault w (factory_calls w) of
           Some e \<Rightarrow> (Inl e, w')
         | None \<Rightarrow>
             (let s = Session (length (created w))
              in (Inr s, w'\<lparr>created := created w @ [s]\<rparr>)))"

text \<open>
  Modelled from the spec: \<^verbatim>\<open>await session.close()\<close> is SQLAlchemy's. In the spec the
  backend driver "supplies the actual \<^verbatim>\<open>newSession()\<close>/connect/close primitives" as an
  opaque capability, and a release "may suspend ... for a close operation to flush
  pending work". The call is recorded; it returns, or it raises what the environment
  says (an error of the backend, or the cancellation of the suspended call).
\<close>

definition session_close :: "session \<Rightarrow> world \<Rightarrow> (exn + unit) \<times> world" where
  "session_close s w =
     (let w' = w\<lparr>close_calls := close_calls w @ [s]\<rparr>
      in case close_fault w (length (close_calls w)) of
           Some e \<Rightarrow> (Inl e, w')
         | None \<Rightarrow> (Inr (), w'))"

definition logger_debug :: "message \<Rightarrow> world \<Rightarrow> world" where
  "logger_debug msg w = w\<lparr>logged := logged w @ [Debug msg]\<rparr>"

definition logger_warning :: "message \<Rightarrow> bool \<Rightarrow> world \<Rightarrow> world" where
  "logger_warning msg stack_info w = w\<lparr>logged := logged w @ [Warning msg stack_info]\<rparr>"

text \<open>\<^verbatim>\<open>event.listen(target, name, handler)\<close>; the handler is the manager's own hook.\<close>

definition event_listen :: "engine \<Rightarrow> string \<Rightarrow> world \<Rightarrow> world" where
  "event_listen target name w = w\<lparr>listeners := listeners w @ [(target, name)]\<rparr>"

text \<open>\<^verbatim>\<open>dbapi_connection.execute(statement)\<close>.\<close>

definition connection_execute :: "connection \<Rightarrow> string \<Rightarrow> world \<Rightarrow> world" where
  "connection_execute c stmt w = w\<lparr>executed := executed w @ [(c, stmt)]\<rparr>"

subsection \<open>The methods of \<^verbatim>\<open>SessionManager\<close>\<close>

text \<open>
  \<^verbatim>\<open>__init__\<close>. When the engine constructor raises, no object comes into being; the
  assignment of \<^verbatim>\<open>self.config\<close> before it is lost with the object.
\<close>

definition init :: "db_config \<Rightarrow> world \<Rightarrow> (exn + session_manager) \<times> world" where
  "init cfg w =
     (case create_async_engine (url cfg) (debug_sql cfg)
             (if debug_sql cfg then Some ''debug'' else None) w of
        Inl e \<Rightarrow> (Inl e, w)
      | Inr eng \<Rightarrow>
          (Inr \<lparr>config = cfg,
                async_engine = eng,
                AsyncSessionClass = \<lparr>bind = eng, expire_on_commit = False\<rparr>,
                async_session = None,
                recursion_depth = 0\<rparr>,
           event_listen eng ''connect'' w))"

text \<open>\<^verbatim>\<open>_on_connect(self, dbapi_connection, _)\<close>; \<^verbatim>\<open>str.startswith\<close> is \<open>prefix\<close>.\<close>

definition startswith :: "string \<Rightarrow> string \<Rightarrow> bool" where
  "startswith s p = (take (length p) s = p)"

definition on_connect :: "session_manager \<Rightarrow> connection \<Rightarrow> world \<Rightarrow> world" where
  "on_connect m dbapi_connection w =
     (let w1 = logger_debug (Connected_to_database (url (config m))) w
      in if startswith (url (config m)) ''sqlite''
         then connection_execute dbapi_connection ''pragma foreign_keys=on'' w1
         else w1)"

text \<open>
  \<^verbatim>\<open>async_start\<close>. When the factory raises, the assignment to
  \<^verbatim>\<open>self.async_session\<close> does not happen and the exception leaves the method.
\<close>

definition async_start ::
  "session_manager \<Rightarrow> world \<Rightarrow> (exn + session) \<times> session_manager \<times> world" where
  "async_start m w =
     (case async_session m of
        Some s \<Rightarrow>
          (let m' = m\<lparr>recursion_depth := recursion_depth m + 1\<rparr>
           in (Inr s, m',
               logger_warning (Re_entering_database_session (recursion_depth m')) True w))
      | None \<Rightarrow>
          (case new_session (AsyncSessionClass m) w of
             (Inl e, w') \<Rightarrow> (Inl e, m, w')
           | (Inr s, w') \<Rightarrow> (Inr s, m\<lparr>async_session := Some s\<rparr>, w')))"

text \<open>
  \<^verbatim>\<open>async_close\<close>, with its two early returns. The session's \<^verbatim>\<open>close()\<close> is
  awaited before \<^verbatim>\<open>self.async_session = None\<close>, outside any \<^verbatim>\<open>try\<close>: when it
  raises, the exception leaves the method and the session stays stored.
\<close>

definition async_close ::
  "session_manager \<Rightarrow> world \<Rightarrow> (exn + unit) \<times> session_manager \<times> world" where
  "async_close m w =
     (case async_session m of
        None \<Rightarrow> (Inr (), m, logger_warning Closing_never_opened True w)
      | Some s \<Rightarrow>
          if recursion_depth m > 0
          then (Inr (), m\<lparr>recursion_depth := recursion_depth m - 1\<rparr>, w)
          else (case session_close s w of
                  (Inl e, w') \<Rightarrow> (Inl e, m, w')
                | (Inr _, w') \<Rightarrow> (Inr (), m\<lparr>async_session := None\<rparr>, w')))"

text \<open>
  \<^verbatim>\<open>__aenter__\<close> and \<^verbatim>\<open>__aexit__\<close>. The second takes the exception the block raised
  (\<open>None\<close> for \<^verbatim>\<open>(None, None, None)\<close>) and, when \<^verbatim>\<open>async_close\<close> returns,
  returns Python's \<^verbatim>\<open>None\<close>, which is false: the exception is not suppressed.
\<close>

definition aenter ::
  "session_manager \<Rightarrow> world \<Rightarrow> (exn + session) \<times> session_manager \<times> world" where
  "aenter m w = async_start m w"

definition aexit ::
  "session_manager \<Rightarrow> exn option \<Rightarrow> world \<Rightarrow> (exn + bool) \<times> session_manager \<times> world" where
  "aexit m exc w =
     (case async_close m w of
        (Inl e, m', w') \<Rightarrow> (Inl e, m', w')
      | (Inr _, m', w') \<Rightarrow> (Inr False, m', w'))"

subsection \<open>Sequences of calls\<close>

text \<open>
  A caller's sequence of calls on one manager. A call that raises leaves the state it
  leaves; the next call is made on that state.
\<close>

datatype call = Acquire | Release

fun call_step :: "call \<Rightarrow> session_manager \<times> world \<Rightarrow> session_manager \<times> world" where
  "call_step Acquire (m, w) = snd (async_start m w)"
| "call_step Release (m, w) = snd (async_close m w)"

definition run ::
  "call list \<Rightarrow> session_manager \<times> world \<Rightarrow> session_manager \<times> world" where
  "run cs st = fold call_step cs st"

text \<open>The two states of the spec: \<^verbatim>\<open>OPEN\<close> is a session being held.\<close>

definition is_open :: "session_manager \<times> world \<Rightarrow> bool" where
  "is_open st = (async_session (fst st) \<noteq> None)"





text \<open>
  The states a manager can be in: constructed by \<^verbatim>\<open>__init__\<close>, then any calls of the
  two methods, whatever they return, and any firing of the connect hook in between.
\<close>

inductive reachable :: "session_manager \<times> world \<Rightarrow> bool" where
  constructed: "init cfg w = (Inr m, w') \<Longrightarrow> reachable (m, w')"
| acquired: "reachable (m, w) \<Longrightarrow> async_start m w = (r, m', w') \<Longrightarrow> reachable (m', w')"
| released: "reachable (m, w) \<Longrightarrow> async_close m w = (r, m', w') \<Longrightarrow> reachable (m', w')"
| connected: "reachable (m, w) \<Longrightarrow> reachable (m, on_connect m c w)"

subsection \<open>The \<^verbatim>\<open>async with\<close> statement\<close>

text \<open>
  \<^verbatim>\<open>async with manager as session: body\<close>, as Python runs it: \<^verbatim>\<open>__aenter__\<close> first
  (when it raises, the body and \<^verbatim>\<open>__aexit__\<close> are skipped); then the body, which may
  use the manager; then \<^verbatim>\<open>__aexit__\<close>, with the body's exception if it raised one,
  which is raised again unless \<^verbatim>\<open>__aexit__\<close> returned a true value. An exception
  that \<^verbatim>\<open>__aexit__\<close> raises itself is the statement's. The result is \<open>Inr None\<close>
  when an exception was suppressed.
\<close>

definition async_with ::
  "session_manager \<Rightarrow>
   (session \<Rightarrow> session_manager \<Rightarrow> world \<Rightarrow> (exn + 'a) \<times> session_manager \<times> world) \<Rightarrow>
   world \<Rightarrow> (exn + 'a option) \<times> session_manager \<times> world" where
  "async_with m body w =
     (case aenter m w of
        (Inl e, m1, w1) \<Rightarrow> (Inl e, m1, w1)
      | (Inr s, m1, w1) \<Rightarrow>
          (case body s m1 w1 of
             (Inr v, m2, w2) \<Rightarrow>
               (case aexit m2 None w2 of
                  (Inl e', m3, w3) \<Rightarrow> (Inl e', m3, w3)
                | (Inr _, m3, w3) \<Rightarrow> (Inr (Some v), m3, w3))
           | (Inl e, m2, w2) \<Rightarrow>
               (case aexit m2 (Some e) w2 of
                  (Inl e', m3, w3) \<Rightarrow> (Inl e', m3, w3)
                | (Inr suppress, m3, w3) \<Rightarrow>
                    (if suppress then Inr None else Inl e, m3, w3))))"

subsection \<open>The depth invariant\<close>

text \<open>The invariant of the data model, as a predicate on the manager.\<close>

definition depth_inv :: "session_manager \<Rightarrow> bool" where
  "depth_inv m =
     (0 \<le> recursion_depth m \<and>
      (0 < recursion_depth m \<longrightarrow> async_session m \<noteq> None) \<and>
      (async_session m = None \<longrightarrow> recursion_depth m = 0))"

subsection \<open>A concrete environment\<close>

text \<open>
  An environment in which nothing has happened yet: the empty URL is malformed, the
  backends are sqlite and postgresql, the factory's third call fails and no
  \<^verbatim>\<open>close()\<close> does. The manager \<open>fresh_manager\<close> is the one \<^verbatim>\<open>__init__\<close> builds
  there for the URL of the class's docstring.
\<close>

definition test_config :: db_config where
  "test_config = \<lparr>url = ''sqlite+aiosqlite:///test.db'', debug_sql = False\<rparr>"

definition test_world :: world where
  "test_world =
     \<lparr>url_malformed = (\<lambda>u. u = []),
      backend_unsupported =
        (\<lambda>u. \<not> startswith u ''sqlite'' \<and> \<not> startswith u ''postgresql''),
      session_fault = (\<lambda>k. if k = 2 then Some ConnectionError else None),
      close_fault = (\<lambda>k. None),
      factory_calls = 0,
      created = [],
      close_calls = [],
      listeners = [],
      executed = [],
      logged = []\<rparr>"

definition test_engine :: engine where
  "test_engine =
     \<lparr>engine_url = ''sqlite+aiosqlite:///test.db'', echo = False, echo_pool = None\<rparr>"

definition fresh_manager :: session_manager where
  "fresh_manager =
     \<lparr>config = test_config,
      async_engine = test_engine,
      AsyncSessionClass = \<lparr>bind = test_engine, expire_on_commit = False\<rparr>,
      async_session = None,
      recursion_depth = 0\<rparr>"

definition fresh_world :: world where
  "fresh_world = test_world\<lparr>listeners := [(test_engine, ''connect'')]\<rparr>"

text \<open>A manager for another backend, with the URL of a PostgreSQL server.\<close>

definition pg_manager :: session_manager where
  "pg_manager =
     fresh_manager\<lparr>config := \<lparr>url = ''postgresql+asyncpg://db/app'', debug_sql = True\<rparr>\<rparr>"


definition failing_close_world :: world where
  "failing_close_world =
     fresh_world\<lparr>close_fault := (\<lambda>k. if k = 0 then Some ConnectionError else None)\<rparr>"


section \<open>Single calls\<close>

text \<open>What each method does, branch by branch.\<close>

lemma async_start_open:
  "async_session m = Some s \<Longrightarrow>
   async_start m w =
     (Inr s, m\<lparr>recursion_depth := recursion_depth m + 1\<rparr>,
      w\<lparr>logged := logged w @
         [Warning (Re_entering_database_session (recursion_depth m + 1)) True]\<rparr>)"
  by (simp add: async_start_def logger_warning_def)

lemma async_start_closed_ok:
  "async_session m = None \<Longrightarrow> session_fault w (factory_calls w) = None \<Longrightarrow>
   async_start m w =
     (Inr (Session (length (created w))),
      m\<lparr>async_session := Some (Session (length (created w)))\<rparr>,
      w\<lparr>factory_calls := Suc (factory_calls w),
        created := created w @ [Session (length (created w))]\<rparr>)"
  by (simp add: async_start_def new_session_def Let_def)

lemma async_start_closed_fail:
  "async_session m = None \<Longrightarrow> session_fault w (factory_calls w) = Some e \<Longrightarrow>
   async_start m w = (Inl e, m, w\<lparr>factory_calls := Suc (factory_calls w)\<rparr>)"
  by (simp add: async_start_def new_session_def)

lemma async_close_closed:
  "async_session m = None \<Longrightarrow>
   async_close m w =
     (Inr (), m, w\<lparr>logged := logged w @ [Warning Closing_never_opened True]\<rparr>)"
  by (simp add: async_close_def logger_warning_def)

lemma async_close_nested:
  "async_session m = Some s \<Longrightarrow> 0 < recursion_depth m \<Longrightarrow>
   async_close m w = (Inr (), m\<lparr>recursion_depth := recursion_depth m - 1\<rparr>, w)"
  by (simp add: async_close_def)

lemma async_close_outermost:
  "async_session m = Some s \<Longrightarrow> recursion_depth m \<le> 0 \<Longrightarrow>
   close_fault w (length (close_calls w)) = None \<Longrightarrow>
   async_close m w =
     (Inr (), m\<lparr>async_session := None\<rparr>, w\<lparr>close_calls := close_calls w @ [s]\<rparr>)"
  by (simp add: async_close_def session_close_def Let_def)

lemma async_close_outermost_fail:
  "async_session m = Some s \<Longrightarrow> recursion_depth m \<le> 0 \<Longrightarrow>
   close_fault w (length (close_calls w)) = Some e \<Longrightarrow>
   async_close m w = (Inl e, m, w\<lparr>close_calls := close_calls w @ [s]\<rparr>)"
  by (simp add: async_close_def session_close_def Let_def)

lemma init_fresh: "init test_config test_world = (Inr fresh_manager, fresh_world)"
  by (simp add: init_def create_async_engine_def test_config_def test_world_def
      fresh_manager_def fresh_world_def test_engine_def event_listen_def startswith_def)

lemmas test_defs =
  fresh_manager_def fresh_world_def test_world_def test_config_def test_engine_def

lemmas method_defs =
  async_start_def async_close_def new_session_def session_close_def logger_warning_def
  logger_debug_def connection_execute_def

section \<open>Sequences of calls\<close>

lemma run_Nil: "run [] st = st"
  by (simp add: run_def)

lemma run_Cons: "run (c # cs) st = run cs (call_step c st)"
  by (simp add: run_def)

lemma run_append: "run (xs @ ys) st = run ys (run xs st)"
  by (simp add: run_def)

lemma run_snoc: "run (xs @ [c]) st = call_step c (run xs st)"
  by (simp add: run_def)

lemma run_replicate_Suc:
  "run (replicate (Suc n) c) st = call_step c (run (replicate n c) st)"
proof -
  have "replicate (Suc n) c = replicate n c @ [c]"
    by (simp add: replicate_append_same)
  then show ?thesis
    by (simp only: run_snoc)
qed

text \<open>No call changes how the backend behaves.\<close>

lemma call_step_faults:
  "session_fault (snd (call_step c st)) = session_fault (snd st) \<and>
   close_fault (snd (call_step c st)) = close_fault (snd st)"
  by (cases st; cases c)
    (simp_all add: method_defs Let_def split: option.splits)

lemma run_faults:
  "session_fault (snd (run cs st)) = session_fault (snd st) \<and>
   close_fault (snd (run cs st)) = close_fault (snd st)"
  by (induction cs arbitrary: st) (simp_all add: run_Nil run_Cons call_step_faults)

lemma call_step_Acquire_open:
  "async_session (fst st) = Some s \<Longrightarrow>
   async_session (fst (call_step Acquire st)) = Some s \<and>
   recursion_depth (fst (call_step Acquire st)) = recursion_depth (fst st) + 1 \<and>
   created (snd (call_step Acquire st)) = created (snd st) \<and>
   factory_calls (snd (call_step Acquire st)) = factory_calls (snd st) \<and>
   close_calls (snd (call_step Acquire st)) = close_calls (snd st)"
  by (cases st) (simp add: async_start_open)


lemma call_step_Release_nested:
  "async_session (fst st) = Some s \<Longrightarrow> 0 < recursion_depth (fst st) \<Longrightarrow>
   async_session (fst (call_step Release st)) = Some s \<and>
   recursion_depth (fst (call_step Release st)) = recursion_depth (fst st) - 1 \<and>
   created (snd (call_step Release st)) = created (snd st) \<and>
   factory_calls (snd (call_step Release st)) = factory_calls (snd st) \<and>
   close_calls (snd (call_step Release st)) = close_calls (snd st)"
  by (cases st) (simp add: async_close_nested)

lemma call_step_Release_outermost:
  "async_session (fst st) = Some s \<Longrightarrow> recursion_depth (fst st) \<le> 0 \<Longrightarrow>
   close_fault (snd st) (length (close_calls (snd st))) = None \<Longrightarrow>
   async_session (fst (call_step Release st)) = None \<and>
   recursion_depth (fst (call_step Release st)) = recursion_depth (fst st) \<and>
   created (snd (call_step Release st)) = created (snd st) \<and>
   factory_calls (snd (call_step Release st)) = factory_calls (snd st) \<and>
   close_calls (snd (call_step Release st)) = close_calls (snd st) @ [s]"
  by (cases st) (simp add: async_close_outermost)

text \<open>Whether \<^verbatim>\<open>close()\<close> returns or raises, the outermost release has called it.\<close>

lemma call_step_Release_outermost_call:
  "async_session (fst st) = Some s \<Longrightarrow> recursion_depth (fst st) \<le> 0 \<Longrightarrow>
   (async_session (fst (call_step Release st)) = None \<or>
    async_session (fst (call_step Release st)) = Some s) \<and>
   recursion_depth (fst (call_step Release st)) = recursion_depth (fst st) \<and>
   created (snd (call_step Release st)) = created (snd st) \<and>
   factory_calls (snd (call_step Release st)) = factory_calls (snd st) \<and>
   close_calls (snd (call_step Release st)) = close_calls (snd st) @ [s]"
  by (cases st; cases "close_fault (snd st) (length (close_calls (snd st)))")
    (simp_all add: async_close_outermost async_close_outermost_fail)

lemma call_step_Release_closed:
  "async_session (fst st) = None \<Longrightarrow>
   fst (call_step Release st) = fst st \<and>
   created (snd (call_step Release st)) = created (snd st) \<and>
   factory_calls (snd (call_step Release st)) = factory_calls (snd st) \<and>
   close_calls (snd (call_step Release st)) = close_calls (snd st)"
  by (cases st) (simp add: async_close_closed)

section \<open>The depth invariant\<close>

lemma depth_inv_init: "init cfg w = (Inr m, w') \<Longrightarrow> depth_inv m"
  by (auto simp: init_def depth_inv_def split: sum.splits)

lemma depth_inv_async_start:
  "depth_inv m \<Longrightarrow> depth_inv (fst (snd (async_start m w)))"
  by (auto simp: async_start_def depth_inv_def split: option.splits sum.splits prod.splits)

lemma depth_inv_async_close:
  "depth_inv m \<Longrightarrow> depth_inv (fst (snd (async_close m w)))"
  by (auto simp: async_close_def depth_inv_def split: option.splits sum.splits prod.splits)

lemma depth_inv_call_step: "depth_inv (fst st) \<Longrightarrow> depth_inv (fst (call_step c st))"
  by (cases st; cases c) (simp_all add: depth_inv_async_start depth_inv_async_close)

lemma depth_inv_run: "depth_inv (fst st) \<Longrightarrow> depth_inv (fst (run cs st))"
  by (induction cs arbitrary: st) (simp_all add: run_Nil run_Cons depth_inv_call_step)

lemma reachable_run: "reachable st \<Longrightarrow> reachable (run cs st)"
proof (induction cs arbitrary: st)
  case Nil
  then show ?case by (simp add: run_Nil)
next
  case (Cons c cs)
  obtain m w where st: "st = (m, w)" by (cases st)
  have "reachable (call_step c st)"
  proof (cases c)
    case Acquire
    obtain r m' w' where "async_start m w = (r, m', w')"
      by (cases "async_start m w") auto
    with Cons.prems st Acquire reachable.acquired [of m w r m' w'] show ?thesis
      by simp
  next
    case Release
    obtain r m' w' where "async_close m w = (r, m', w')"
      by (cases "async_close m w") auto
    with Cons.prems st Release reachable.released [of m w r m' w'] show ?thesis
      by simp
  qed
  from Cons.IH [OF this] show ?case
    by (simp add: run_Cons)
qed

text \<open>
  C2. In every state a manager can reach from its construction by calls of
  \<^verbatim>\<open>async_start\<close> and \<^verbatim>\<open>async_close\<close>, \<^verbatim>\<open>recursion_depth\<close> is not negative, a
  positive \<^verbatim>\<open>recursion_depth\<close> comes with a session, and no session comes with
  \<^verbatim>\<open>recursion_depth\<close> 0.
\<close>

theorem reachable_depth_inv:
  assumes "reachable (m, w)"
  shows "0 \<le> recursion_depth m \<and>
         (0 < recursion_depth m \<longrightarrow> async_session m \<noteq> None) \<and>
         (async_session m = None \<longrightarrow> recursion_depth m = 0)"
proof -
  have "depth_inv (fst st)" if "reachable st" for st
    using that
  proof (induction rule: reachable.induct)
    case (constructed cfg w m w')
    then show ?case by (simp add: depth_inv_init)
  next
    case (acquired m w r m' w')
    with depth_inv_async_start [of m w] show ?case by simp
  next
    case (released m w r m' w')
    with depth_inv_async_close [of m w] show ?case by simp
  next
    case (connected m w c)
    then show ?case by simp
  qed
  from this [OF assms] show ?thesis
    by (simp add: depth_inv_def)
qed

text \<open>After construction and two acquisitions the depth is 1, and a session is held.\<close>

theorem reachable_depth_inv_witness:
  "reachable (run [Acquire, Acquire] (fresh_manager, fresh_world)) \<and>
   recursion_depth (fst (run [Acquire, Acquire] (fresh_manager, fresh_world))) = 1 \<and>
   async_session (fst (run [Acquire, Acquire] (fresh_manager, fresh_world))) \<noteq> None"
proof -
  define st where "st = run [Acquire, Acquire] (fresh_manager, fresh_world)"
  have "reachable (fresh_manager, fresh_world)"
    using init_fresh by (rule reachable.constructed)
  then have r: "reachable (fst st, snd st)"
    unfolding st_def by (simp add: reachable_run)
  have d: "recursion_depth (fst st) = 1"
    by (simp add: st_def run_def method_defs test_defs Let_def)
  from reachable_depth_inv [OF r] d r show ?thesis
    by (simp add: st_def)
qed

section \<open>Open exactly when acquisitions exceed releases\<close>










section \<open>Acquiring\<close>

text \<open>As long as the scope stays open, it holds the same session and the factory rests.\<close>

lemma stays_open:
  assumes "async_session (fst st) = Some s"
    and "\<forall>k. k \<le> length cs \<longrightarrow> is_open (run (take k cs) st)"
  shows "async_session (fst (run cs st)) = Some s \<and>
         created (snd (run cs st)) = created (snd st) \<and>
         factory_calls (snd (run cs st)) = factory_calls (snd st)"
  using assms
proof (induction cs arbitrary: st)
  case Nil
  then show ?case by (simp add: run_Nil)
next
  case (Cons c cs)
  have first: "is_open (call_step c st)"
    using Cons.prems(2) [rule_format, of 1] by (simp add: run_Cons run_Nil)
  have step: "async_session (fst (call_step c st)) = Some s \<and>
              created (snd (call_step c st)) = created (snd st) \<and>
              factory_calls (snd (call_step c st)) = factory_calls (snd st)"
  proof (cases c)
    case Acquire
    with call_step_Acquire_open [OF Cons.prems(1)] show ?thesis by simp
  next
    case Release
    show ?thesis
    proof (cases "0 < recursion_depth (fst st)")
      case True
      with Release call_step_Release_nested [OF Cons.prems(1)] show ?thesis by simp
    next
      case False
      then have "recursion_depth (fst st) \<le> 0" by simp
      from call_step_Release_outermost_call [OF Cons.prems(1) this] Release first
      show ?thesis
        by (auto simp: is_open_def)
    qed
  qed
  have rest: "\<forall>k. k \<le> length cs \<longrightarrow> is_open (run (take k cs) (call_step c st))"
  proof (intro allI impI)
    fix k assume "k \<le> length cs"
    with Cons.prems(2) [rule_format, of "Suc k"] show "is_open (run (take k cs) (call_step c st))"
      by (simp add: run_Cons)
  qed
  from Cons.IH [OF _ rest] step show ?case
    by (simp add: run_Cons)
qed

text \<open>
  C3. On a manager that holds no session, \<^verbatim>\<open>async_start\<close> calls the session factory
  once and, the factory returning a session, stores that session, leaves
  \<^verbatim>\<open>recursion_depth\<close> as it was and returns the session. After any further calls
  during which the scope stays open (no release has matched the first acquisition), one
  more \<^verbatim>\<open>async_start\<close> returns that very session and adds 1 to
  \<^verbatim>\<open>recursion_depth\<close>; the factory has still been called once and has built that one
  session.
\<close>

theorem acquire_creates_once:
  assumes "async_session m = None" and "session_fault w (factory_calls w) = None"
    and "s = Session (length (created w))"
  shows "async_start m w =
           (Inr s, m\<lparr>async_session := Some s\<rparr>,
            w\<lparr>factory_calls := Suc (factory_calls w), created := created w @ [s]\<rparr>) \<and>
         (\<forall>cs m2 w2.
            (\<forall>k. k \<le> length cs \<longrightarrow> is_open (run (take k cs) (snd (async_start m w)))) \<and>
            run cs (snd (async_start m w)) = (m2, w2) \<longrightarrow>
            async_start m2 w2 =
              (Inr s, m2\<lparr>recursion_depth := recursion_depth m2 + 1\<rparr>,
               w2\<lparr>logged := logged w2 @
                  [Warning (Re_entering_database_session (recursion_depth m2 + 1)) True]\<rparr>) \<and>
            factory_calls w2 = Suc (factory_calls w) \<and>
            created w2 = created w @ [s])"
proof (intro conjI allI impI)
  show first: "async_start m w =
           (Inr s, m\<lparr>async_session := Some s\<rparr>,
            w\<lparr>factory_calls := Suc (factory_calls w), created := created w @ [s]\<rparr>)"
    using assms by (simp add: async_start_closed_ok)
  fix cs m2 w2
  assume later: "(\<forall>k. k \<le> length cs \<longrightarrow> is_open (run (take k cs) (snd (async_start m w)))) \<and>
            run cs (snd (async_start m w)) = (m2, w2)"
  define st where "st = snd (async_start m w)"
  have held: "async_session (fst st) = Some s"
    and w1: "created (snd st) = created w @ [s]" "factory_calls (snd st) = Suc (factory_calls w)"
    by (simp_all add: st_def first)
  from later have "\<forall>k. k \<le> length cs \<longrightarrow> is_open (run (take k cs) st)"
    and "run cs st = (m2, w2)"
    by (simp_all add: st_def)
  with stays_open [OF held, of cs] w1
  have m2: "async_session m2 = Some s"
    and w2: "created w2 = created w @ [s]" "factory_calls w2 = Suc (factory_calls w)"
    by simp_all
  from m2 show "async_start m2 w2 =
              (Inr s, m2\<lparr>recursion_depth := recursion_depth m2 + 1\<rparr>,
               w2\<lparr>logged := logged w2 @
                  [Warning (Re_entering_database_session (recursion_depth m2 + 1)) True]\<rparr>)"
    by (rule async_start_open)
  from w2 show "factory_calls w2 = Suc (factory_calls w)" "created w2 = created w @ [s]"
    by simp_all
qed

theorem acquire_creates_once_witness:
  "async_session fresh_manager = None \<and>
   session_fault fresh_world (factory_calls fresh_world) = None \<and>
   fst (async_start fresh_manager fresh_world) = Inr (Session 0) \<and>
   is_open (snd (async_start fresh_manager fresh_world)) \<and>
   is_open (run [Acquire] (snd (async_start fresh_manager fresh_world))) \<and>
   is_open (run [Acquire, Release] (snd (async_start fresh_manager fresh_world))) \<and>
   fst (async_start
         (fst (run [Acquire, Release] (snd (async_start fresh_manager fresh_world))))
         (snd (run [Acquire, Release] (snd (async_start fresh_manager fresh_world)))))
     = Inr (Session 0) \<and>
   created (snd (run [Acquire, Release] (snd (async_start fresh_manager fresh_world))))
     = [Session 0]"
proof -
  define st1 where "st1 = snd (async_start fresh_manager fresh_world)"
  define st2 where "st2 = run [Acquire, Release] st1"
  have closed: "async_session fresh_manager = None"
    and ok: "session_fault fresh_world (factory_calls fresh_world) = None"
    and s: "Session 0 = Session (length (created fresh_world))"
    by (simp_all add: test_defs)
  have st1: "st1 = (fresh_manager\<lparr>async_session := Some (Session 0)\<rparr>,
      fresh_world\<lparr>factory_calls := Suc 0, created := [Session 0]\<rparr>)"
    by (simp add: st1_def method_defs test_defs Let_def)
  have o0: "is_open st1"
    by (simp add: st1 is_open_def)
  have o1: "is_open (run [Acquire] st1)"
    by (simp add: st1 is_open_def run_def method_defs)
  have o2: "is_open (run [Acquire, Release] st1)"
    by (simp add: st1 is_open_def run_def method_defs test_defs)
  have opens: "\<forall>k. k \<le> length [Acquire, Release] \<longrightarrow>
      is_open (run (take k [Acquire, Release]) (snd (async_start fresh_manager fresh_world)))"
  proof (intro allI impI)
    fix k :: nat assume "k \<le> length [Acquire, Release]"
    then have "k = 0 \<or> k = 1 \<or> k = 2" by auto
    with o0 o1 o2 show
      "is_open (run (take k [Acquire, Release]) (snd (async_start fresh_manager fresh_world)))"
      by (auto simp: st1_def [symmetric] run_Nil)
  qed
  have c: "created fresh_world = []"
    by (simp add: test_defs)
  note inst = acquire_creates_once [OF closed ok s]
  from inst [THEN conjunct1]
  have first: "fst (async_start fresh_manager fresh_world) = Inr (Session 0)"
    by simp
  note later = inst [THEN conjunct2, rule_format, OF conjI, OF opens surjective_pairing]
  from later c
  have "fst (async_start (fst st2) (snd st2)) = Inr (Session 0) \<and>
        created (snd st2) = [Session 0]"
    unfolding st2_def st1_def by simp
  with closed ok first o0 o1 o2 show ?thesis
    by (simp add: st2_def st1_def)
qed

text \<open>
  C8. When the session factory raises during \<^verbatim>\<open>async_start\<close> on a manager that holds
  no session, \<^verbatim>\<open>async_start\<close> raises the same exception and the manager is as it
  was: no session stored, \<^verbatim>\<open>recursion_depth\<close> unchanged. In the environment the
  factory call is counted and no session was built.
\<close>

theorem async_start_failure:
  assumes "async_session m = None" and "session_fault w (factory_calls w) = Some e"
  shows "async_start m w = (Inl e, m, w\<lparr>factory_calls := Suc (factory_calls w)\<rparr>)"
  using assms by (rule async_start_closed_fail)

text \<open>In the test environment the factory's third call fails.\<close>

theorem async_start_failure_witness:
  "async_session fresh_manager = None \<and>
   session_fault (fresh_world\<lparr>factory_calls := 2\<rparr>)
     (factory_calls (fresh_world\<lparr>factory_calls := 2\<rparr>)) = Some ConnectionError \<and>
   async_start fresh_manager (fresh_world\<lparr>factory_calls := 2\<rparr>) =
     (Inl ConnectionError, fresh_manager, fresh_world\<lparr>factory_calls := 3\<rparr>)"
proof -
  have closed: "async_session fresh_manager = None"
    and fails: "session_fault (fresh_world\<lparr>factory_calls := 2\<rparr>)
      (factory_calls (fresh_world\<lparr>factory_calls := 2\<rparr>)) = Some ConnectionError"
    by (simp_all add: test_defs)
  from async_start_failure [OF closed fails] closed fails show ?thesis
    by simp
qed

section \<open>Releasing\<close>

lemma acquires_open:
  assumes "async_session (fst st) = Some s"
  shows "async_session (fst (run (replicate n Acquire) st)) = Some s \<and>
         recursion_depth (fst (run (replicate n Acquire) st)) = recursion_depth (fst st) + int n \<and>
         close_calls (snd (run (replicate n Acquire) st)) = close_calls (snd st)"
proof (induction n)
  case 0
  with assms show ?case by (simp add: run_Nil)
next
  case (Suc n)
  have "run (replicate (Suc n) Acquire) st = call_step Acquire (run (replicate n Acquire) st)"
    by (rule run_replicate_Suc)
  with Suc call_step_Acquire_open [of "run (replicate n Acquire) st" s] show ?case
    by simp
qed

lemma releases_nested:
  assumes "async_session (fst st) = Some s" and "int k \<le> recursion_depth (fst st)"
  shows "async_session (fst (run (replicate k Release) st)) = Some s \<and>
         recursion_depth (fst (run (replicate k Release) st)) =
           recursion_depth (fst st) - int k \<and>
         close_calls (snd (run (replicate k Release) st)) = close_calls (snd st)"
  using assms(2)
proof (induction k)
  case 0
  with assms(1) show ?case by (simp add: run_Nil)
next
  case (Suc k)
  define st' where "st' = run (replicate k Release) st"
  have step: "run (replicate (Suc k) Release) st = call_step Release st'"
    unfolding st'_def by (rule run_replicate_Suc)
  from Suc have "async_session (fst st') = Some s" "0 < recursion_depth (fst st')"
    and "recursion_depth (fst st') = recursion_depth (fst st) - int k"
    and "close_calls (snd st') = close_calls (snd st)"
    by (simp_all add: st'_def)
  with call_step_Release_nested [of st' s] show ?case
    unfolding step by simp
qed

lemma releases_closed:
  assumes "async_session (fst st) = None"
  shows "fst (run (replicate k Release) st) = fst st \<and>
         close_calls (snd (run (replicate k Release) st)) = close_calls (snd st)"
proof (induction k)
  case 0
  show ?case by (simp add: run_Nil)
next
  case (Suc k)
  define st' where "st' = run (replicate k Release) st"
  have step: "run (replicate (Suc k) Release) st = call_step Release st'"
    unfolding st'_def by (rule run_replicate_Suc)
  from Suc assms have "async_session (fst st') = None"
    by (simp add: st'_def)
  from call_step_Release_closed [OF this] Suc show ?case
    unfolding step by (simp add: st'_def)
qed

text \<open>
  C4, amended. Let \<open>N \<ge> 1\<close> calls of \<^verbatim>\<open>async_start\<close> on a closed manager, the factory
  returning a session, be followed by \<open>k\<close> calls of \<^verbatim>\<open>async_close\<close>. While \<open>k < N\<close>
  the session is still held, \<^verbatim>\<open>recursion_depth\<close> is \<open>N - 1 - k\<close> and no \<^verbatim>\<open>close()\<close>
  has been called. The \<open>N\<close>-th release calls \<^verbatim>\<open>close()\<close> on the session, for the first
  time. When that \<^verbatim>\<open>close()\<close> returns, from \<open>k = N\<close> on the manager holds no session
  and \<^verbatim>\<open>close()\<close> has been called on the session exactly once.
\<close>

theorem balanced_release_closes_last:
  assumes "async_session m = None" and "recursion_depth m = 0"
    and "session_fault w (factory_calls w) = None"
    and "1 \<le> N"
    and "s = Session (length (created w))"
    and "run (replicate N Acquire @ replicate k Release) (m, w) = (m', w')"
  shows "(k < N \<longrightarrow>
            async_session m' = Some s \<and> recursion_depth m' = int N - 1 - int k \<and>
            close_calls w' = close_calls w) \<and>
         (k = N \<longrightarrow> close_calls w' = close_calls w @ [s]) \<and>
         (N \<le> k \<and> close_fault w (length (close_calls w)) = None \<longrightarrow>
            async_session m' = None \<and> recursion_depth m' = 0 \<and>
            close_calls w' = close_calls w @ [s])"
proof -
  obtain n where N: "N = Suc n"
    using assms(4) by (cases N) simp_all
  define st1 where "st1 = call_step Acquire (m, w)"
  define stN where "stN = run (replicate n Acquire) st1"
  have st1: "async_session (fst st1) = Some s" "recursion_depth (fst st1) = 0"
    "close_calls (snd st1) = close_calls w"
    using assms(1,2,3,5) by (simp_all add: st1_def async_start_closed_ok)
  from acquires_open [OF st1(1), of n] st1
  have stN: "async_session (fst stN) = Some s" "recursion_depth (fst stN) = int n"
    "close_calls (snd stN) = close_calls w"
    by (simp_all add: stN_def)
  have "close_fault (snd stN) = close_fault (snd st1)"
    unfolding stN_def by (simp add: run_faults)
  also have "\<dots> = close_fault w"
    unfolding st1_def using call_step_faults [of Acquire "(m, w)"] by simp
  finally have faultN: "close_fault (snd stN) = close_fault w" .
  have "run (replicate N Acquire @ replicate k Release) (m, w) = run (replicate k Release) stN"
    by (simp add: N run_append run_Cons stN_def st1_def)
  with assms(6) have final: "run (replicate k Release) stN = (m', w')"
    by simp
  have nested: "async_session m' = Some s \<and> recursion_depth m' = int N - 1 - int k \<and>
      close_calls w' = close_calls w" if "k < N"
  proof -
    from that have "int k \<le> recursion_depth (fst stN)"
      by (simp add: N stN)
    from releases_nested [OF stN(1) this] stN final show ?thesis
      by (simp add: N)
  qed
  define stA where "stA = run (replicate n Release) stN"
  define stB where "stB = call_step Release stA"
  have "int n \<le> recursion_depth (fst stN)"
    by (simp add: stN)
  from releases_nested [OF stN(1) this] stN
  have stA: "async_session (fst stA) = Some s" "recursion_depth (fst stA) \<le> 0"
    "close_calls (snd stA) = close_calls w" "recursion_depth (fst stA) = 0"
    by (simp_all add: stA_def)
  have faultA: "close_fault (snd stA) = close_fault w"
    unfolding stA_def using faultN by (simp add: run_faults)
  from call_step_Release_outermost_call [OF stA(1,2)] stA(3)
  have callB: "close_calls (snd stB) = close_calls w @ [s]"
    by (simp add: stB_def)
  have after: "run (replicate (N + j) Release) stN = run (replicate j Release) stB" for j
  proof -
    have "replicate (N + j) Release = replicate n Release @ [Release] @ replicate j Release"
      by (simp add: N replicate_add replicate_append_same)
    then show ?thesis
      by (simp add: run_append run_Cons stA_def stB_def)
  qed
  have called: "close_calls w' = close_calls w @ [s]" if "k = N"
  proof -
    from after [of 0] that final have "stB = (m', w')"
      by (simp add: run_Nil)
    with callB show ?thesis by simp
  qed
  have closed: "async_session m' = None \<and> recursion_depth m' = 0 \<and>
      close_calls w' = close_calls w @ [s]"
    if "N \<le> k" and ok: "close_fault w (length (close_calls w)) = None"
  proof -
    from ok faultA stA(3)
    have "close_fault (snd stA) (length (close_calls (snd stA))) = None"
      by simp
    from call_step_Release_outermost [OF stA(1,2) this] stA
    have stB: "async_session (fst stB) = None" "recursion_depth (fst stB) = 0"
      unfolding stB_def by simp_all
    obtain j where "k = N + j"
      using \<open>N \<le> k\<close> by (auto simp: le_iff_add)
    with after [of j] final have "run (replicate j Release) stB = (m', w')"
      by simp
    with releases_closed [OF stB(1), of j] stB callB show ?thesis
      by simp
  qed
  from nested called closed show ?thesis
    by blast
qed

text \<open>
  Two acquisitions where no \<^verbatim>\<open>close()\<close> fails: open after one release, closed once
  after two, and still closed once after three.
\<close>

theorem balanced_release_closes_last_witness:
  "async_session fresh_manager = None \<and> recursion_depth fresh_manager = 0 \<and>
   session_fault fresh_world (factory_calls fresh_world) = None \<and>
   close_fault fresh_world (length (close_calls fresh_world)) = None \<and>
   async_session (fst (run (replicate 2 Acquire @ replicate 1 Release)
      (fresh_manager, fresh_world))) = Some (Session 0) \<and>
   close_calls (snd (run (replicate 2 Acquire @ replicate 1 Release)
      (fresh_manager, fresh_world))) = [] \<and>
   async_session (fst (run (replicate 2 Acquire @ replicate 2 Release)
      (fresh_manager, fresh_world))) = None \<and>
   close_calls (snd (run (replicate 2 Acquire @ replicate 2 Release)
      (fresh_manager, fresh_world))) = [Session 0] \<and>
   async_session (fst (run (replicate 2 Acquire @ replicate 3 Release)
      (fresh_manager, fresh_world))) = None \<and>
   close_calls (snd (run (replicate 2 Acquire @ replicate 3 Release)
      (fresh_manager, fresh_world))) = [Session 0]"
proof -
  have closed: "async_session fresh_manager = None" "recursion_depth fresh_manager = 0"
    and ok: "session_fault fresh_world (factory_calls fresh_world) = None"
    and s: "Session 0 = Session (length (created fresh_world))"
    and c: "close_calls fresh_world = []"
    and f: "close_fault fresh_world (length (close_calls fresh_world)) = None"
    by (simp_all add: test_defs)
  have N: "(1::nat) \<le> 2" by simp
  note inst = balanced_release_closes_last [OF closed ok N s, OF surjective_pairing]
  from inst [of 1] inst [of 2] inst [of 3] closed ok c f show ?thesis
    by simp
qed

text \<open>
  The statement without the proviso fails. When the first \<^verbatim>\<open>close()\<close> raises, the
  session is still held after one acquisition and one release, and a second release
  calls \<^verbatim>\<open>close()\<close> on it again.
\<close>

theorem balanced_release_closes_last_counterexample:
  "async_session (fst (run [Acquire, Release] (fresh_manager, failing_close_world))) =
     Some (Session 0) \<and>
   close_calls (snd (run [Acquire, Release] (fresh_manager, failing_close_world))) =
     [Session 0] \<and>
   close_calls (snd (run [Acquire, Release, Release] (fresh_manager, failing_close_world))) =
     [Session 0, Session 0]"
  by (simp add: run_def method_defs failing_close_world_def test_defs Let_def)

text \<open>
  C5. Calling \<^verbatim>\<open>async_close\<close> \<open>n\<close> times on a manager that holds no session
  returns normally each time and leaves the manager as it was; in the environment only
  the log changes, by \<open>n\<close> warnings: no session is built and none is closed.
\<close>

theorem release_closed_noop:
  assumes "async_session m = None"
  shows "run (replicate n Release) (m, w) =
           (m, w\<lparr>logged := logged w @ replicate n (Warning Closing_never_opened True)\<rparr>) \<and>
         (\<forall>i<n. fst (async_close (fst (run (replicate i Release) (m, w)))
                      (snd (run (replicate i Release) (m, w)))) = Inr ())"
proof -
  have state: "run (replicate i Release) (m, w) =
      (m, w\<lparr>logged := logged w @ replicate i (Warning Closing_never_opened True)\<rparr>)" for i
  proof (induction i)
    case 0
    show ?case by (simp add: run_Nil)
  next
    case (Suc i)
    have "run (replicate (Suc i) Release) (m, w) =
            call_step Release (run (replicate i Release) (m, w))"
      by (rule run_replicate_Suc)
    also have "\<dots> = snd (async_close m
        (w\<lparr>logged := logged w @ replicate i (Warning Closing_never_opened True)\<rparr>))"
      by (simp add: Suc)
    also have "\<dots> =
        (m, w\<lparr>logged := logged w @ replicate (Suc i) (Warning Closing_never_opened True)\<rparr>)"
      using assms by (simp add: async_close_closed replicate_append_same)
    finally show ?case .
  qed
  have "fst (async_close (fst (run (replicate i Release) (m, w)))
          (snd (run (replicate i Release) (m, w)))) = Inr ()" for i
    using assms by (simp add: state async_close_closed)
  with state [of n] show ?thesis
    by simp
qed

theorem release_closed_noop_witness:
  "async_session fresh_manager = None \<and>
   run (replicate 3 Release) (fresh_manager, fresh_world) =
     (fresh_manager,
      fresh_world\<lparr>logged := replicate 3 (Warning Closing_never_opened True)\<rparr>) \<and>
   fst (async_close (fst (run (replicate 2 Release) (fresh_manager, fresh_world)))
          (snd (run (replicate 2 Release) (fresh_manager, fresh_world)))) = Inr ()"
proof -
  have closed: "async_session fresh_manager = None"
    by (simp add: fresh_manager_def)
  have empty: "logged fresh_world = []"
    by (simp add: fresh_world_def test_world_def)
  note inst = release_closed_noop [OF closed, of 3 fresh_world]
  from inst [THEN conjunct1] empty
  have "run (replicate 3 Release) (fresh_manager, fresh_world) =
     (fresh_manager,
      fresh_world\<lparr>logged := replicate 3 (Warning Closing_never_opened True)\<rparr>)"
    by simp
  moreover
  from inst [THEN conjunct2, rule_format, of 2]
  have "fst (async_close (fst (run (replicate 2 Release) (fresh_manager, fresh_world)))
          (snd (run (replicate 2 Release) (fresh_manager, fresh_world)))) = Inr ()"
    by simp
  ultimately show ?thesis
    using closed by simp
qed

section \<open>The connect hook\<close>

text \<open>
  C6. The connect hook executes \<^verbatim>\<open>pragma foreign_keys=on\<close> on the new connection
  if the configured URL begins with \<^verbatim>\<open>sqlite\<close>, and executes nothing otherwise; in
  both cases it logs the connection. \<open>startswith\<close> says that the URL is
  \<^verbatim>\<open>sqlite\<close> followed by something.
\<close>

theorem on_connect_pragma:
  "on_connect m c w =
     (if startswith (url (config m)) ''sqlite''
      then w\<lparr>logged := logged w @ [Debug (Connected_to_database (url (config m)))],
             executed := executed w @ [(c, ''pragma foreign_keys=on'')]\<rparr>
      else w\<lparr>logged := logged w @ [Debug (Connected_to_database (url (config m)))]\<rparr>)
   \<and> (startswith (url (config m)) ''sqlite'' \<longleftrightarrow> (\<exists>rest. url (config m) = ''sqlite'' @ rest))"
proof
  show "on_connect m c w =
     (if startswith (url (config m)) ''sqlite''
      then w\<lparr>logged := logged w @ [Debug (Connected_to_database (url (config m)))],
             executed := executed w @ [(c, ''pragma foreign_keys=on'')]\<rparr>
      else w\<lparr>logged := logged w @ [Debug (Connected_to_database (url (config m)))]\<rparr>)"
    by (simp add: on_connect_def logger_debug_def connection_execute_def)
next
  show "startswith (url (config m)) ''sqlite'' \<longleftrightarrow> (\<exists>rest. url (config m) = ''sqlite'' @ rest)"
    unfolding startswith_def
    by (metis append_take_drop_id append_eq_conv_conj)
qed

theorem on_connect_pragma_witness:
  "executed (on_connect fresh_manager (Connection 7) fresh_world) =
     [(Connection 7, ''pragma foreign_keys=on'')] \<and>
   executed (on_connect pg_manager (Connection 7) fresh_world) = []"
proof -
  have "startswith (url (config fresh_manager)) ''sqlite''"
    and "\<not> startswith (url (config pg_manager)) ''sqlite''"
    and "executed fresh_world = []"
    by (simp_all add: startswith_def pg_manager_def test_defs)
  with on_connect_pragma [of fresh_manager "Connection 7" fresh_world]
    on_connect_pragma [of pg_manager "Connection 7" fresh_world]
  show ?thesis
    by simp
qed

section \<open>Construction\<close>

text \<open>
  C7. Constructing a manager for a URL that is malformed or names an unsupported backend
  raises \<^verbatim>\<open>ConfigurationError\<close>. No manager exists afterwards, and the environment
  is as before: no session was built and no listener registered.
\<close>

theorem init_rejects:
  assumes "url_malformed w (url cfg) \<or> backend_unsupported w (url cfg)"
  shows "init cfg w = (Inl ConfigurationError, w)"
  using assms by (simp add: init_def create_async_engine_def)

text \<open>The empty URL is malformed, and MySQL is no backend of the test environment.\<close>

theorem init_rejects_witness:
  "url_malformed test_world (url (test_config\<lparr>url := ''''\<rparr>)) \<and>
   init (test_config\<lparr>url := ''''\<rparr>) test_world = (Inl ConfigurationError, test_world) \<and>
   backend_unsupported test_world (url (test_config\<lparr>url := ''mysql://db/app''\<rparr>)) \<and>
   init (test_config\<lparr>url := ''mysql://db/app''\<rparr>) test_world =
     (Inl ConfigurationError, test_world)"
proof -
  have bad: "url_malformed test_world (url (test_config\<lparr>url := ''''\<rparr>))"
    and unsupported:
      "backend_unsupported test_world (url (test_config\<lparr>url := ''mysql://db/app''\<rparr>))"
    by (simp_all add: test_defs startswith_def)
  from init_rejects [OF disjI1, OF bad] init_rejects [OF disjI2, OF unsupported]
    bad unsupported
  show ?thesis by simp
qed

section \<open>Scoped use\<close>

text \<open>
  C9. \<^verbatim>\<open>__aenter__\<close> is \<^verbatim>\<open>async_start\<close>: same result, same effect.
  \<^verbatim>\<open>__aexit__\<close> is one \<^verbatim>\<open>async_close\<close>, whatever exception it is given: the same
  effect, the same exception if \<^verbatim>\<open>async_close\<close> raises one, and otherwise a false
  result, so that the block's exception is not suppressed. So an \<^verbatim>\<open>async with\<close>
  block whose acquisition raised releases nothing, and one whose acquisition returned
  ends with one \<^verbatim>\<open>async_close\<close> on the state the body left, whether the body returned
  (\<open>r = Inr v\<close>) or raised (\<open>r = Inl e\<close>); the body's result is the block's unless
  that \<^verbatim>\<open>async_close\<close> raises.
\<close>

theorem scoped_use:
  "aenter m w = async_start m w \<and>
   aexit m exc w =
     (map_sum id (\<lambda>_. False) (fst (async_close m w)), snd (async_close m w)) \<and>
   (\<forall>e m1 w1. async_start m w = (Inl e, m1, w1) \<longrightarrow> async_with m body w = (Inl e, m1, w1)) \<and>
   (\<forall>s m1 w1 r m2 w2.
      async_start m w = (Inr s, m1, w1) \<longrightarrow> body s m1 w1 = (r, m2, w2) \<longrightarrow>
      async_with m body w =
        (case fst (async_close m2 w2) of
           Inl e' \<Rightarrow> Inl e'
         | Inr _ \<Rightarrow> map_sum id Some r,
         snd (async_close m2 w2)))"
  by (auto simp: aenter_def aexit_def async_with_def split: sum.splits prod.splits)

text \<open>A body that raises at once: the exception comes out and the session is closed.\<close>

theorem scoped_use_witness:
  "fst (async_with fresh_manager (\<lambda>s m w. (Inl ConfigurationError :: exn + unit, m, w))
          fresh_world) = Inl ConfigurationError \<and>
   async_session (fst (snd (async_with fresh_manager
      (\<lambda>s m w. (Inl ConfigurationError :: exn + unit, m, w)) fresh_world))) = None \<and>
   close_calls (snd (snd (async_with fresh_manager
      (\<lambda>s m w. (Inl ConfigurationError :: exn + unit, m, w)) fresh_world))) = [Session 0]"
proof -
  define body :: "session \<Rightarrow> session_manager \<Rightarrow> world \<Rightarrow> (exn + unit) \<times> session_manager \<times> world"
    where "body = (\<lambda>s m w. (Inl ConfigurationError, m, w))"
  define m1 where "m1 = fresh_manager\<lparr>async_session := Some (Session 0)\<rparr>"
  define w1 where "w1 = fresh_world\<lparr>factory_calls := Suc 0, created := [Session 0]\<rparr>"
  have enter: "async_start fresh_manager fresh_world = (Inr (Session 0), m1, w1)"
    by (simp add: m1_def w1_def method_defs test_defs Let_def)
  have block: "body (Session 0) m1 w1 = (Inl ConfigurationError, m1, w1)"
    by (simp add: body_def)
  have exit: "async_close m1 w1 =
      (Inr (), m1\<lparr>async_session := None\<rparr>, w1\<lparr>close_calls := [Session 0]\<rparr>)"
    by (simp add: m1_def w1_def method_defs test_defs Let_def)
  from scoped_use [of fresh_manager fresh_world None body, THEN conjunct2, THEN conjunct2,
      THEN conjunct2, rule_format, OF enter block]
  have "async_with fresh_manager body fresh_world =
      (Inl ConfigurationError, m1\<lparr>async_session := None\<rparr>, w1\<lparr>close_calls := [Session 0]\<rparr>)"
    by (simp add: exit)
  then show ?thesis
    by (simp add: body_def [symmetric])
qed

section \<open>Frame\<close>

text \<open>
  C10. \<^verbatim>\<open>async_start\<close> keeps a session that is held, calls no \<^verbatim>\<open>close()\<close> and does
  not lower \<^verbatim>\<open>recursion_depth\<close>. \<^verbatim>\<open>async_close\<close> builds no session, does not call
  the factory, leaves the manager with the session it had or none, and does not raise
  \<^verbatim>\<open>recursion_depth\<close>. Neither changes \<^verbatim>\<open>config\<close>, \<^verbatim>\<open>async_engine\<close> or
  \<^verbatim>\<open>AsyncSessionClass\<close>.
\<close>

theorem disjoint_effects:
  "(\<forall>s. async_session m = Some s \<longrightarrow> async_session (fst (snd (async_start m w))) = Some s) \<and>
   close_calls (snd (snd (async_start m w))) = close_calls w \<and>
   recursion_depth m \<le> recursion_depth (fst (snd (async_start m w))) \<and>
   created (snd (snd (async_close m w))) = created w \<and>
   factory_calls (snd (snd (async_close m w))) = factory_calls w \<and>
   (async_session (fst (snd (async_close m w))) = None \<or>
    async_session (fst (snd (async_close m w))) = async_session m) \<and>
   recursion_depth (fst (snd (async_close m w))) \<le> recursion_depth m \<and>
   config (fst (snd (async_start m w))) = config m \<and>
   async_engine (fst (snd (async_start m w))) = async_engine m \<and>
   AsyncSessionClass (fst (snd (async_start m w))) = AsyncSessionClass m \<and>
   config (fst (snd (async_close m w))) = config m \<and>
   async_engine (fst (snd (async_close m w))) = async_engine m \<and>
   AsyncSessionClass (fst (snd (async_close m w))) = AsyncSessionClass m"
proof -
  have start: "async_start m w = (case async_session m of
        Some s \<Rightarrow>
          (Inr s, m\<lparr>recursion_depth := recursion_depth m + 1\<rparr>,
           w\<lparr>logged := logged w @
              [Warning (Re_entering_database_session (recursion_depth m + 1)) True]\<rparr>)
      | None \<Rightarrow>
          (case session_fault w (factory_calls w) of
             Some e \<Rightarrow> (Inl e, m, w\<lparr>factory_calls := Suc (factory_calls w)\<rparr>)
           | None \<Rightarrow> (Inr (Session (length (created w))),
                m\<lparr>async_session := Some (Session (length (created w)))\<rparr>,
                w\<lparr>factory_calls := Suc (factory_calls w),
                  created := created w @ [Session (length (created w))]\<rparr>)))"
    by (simp add: async_start_open async_start_closed_ok async_start_closed_fail
        split: option.splits)
  have close: "async_close m w = (case async_session m of
        None \<Rightarrow> (Inr (), m, w\<lparr>logged := logged w @ [Warning Closing_never_opened True]\<rparr>)
      | Some s \<Rightarrow>
          if 0 < recursion_depth m
          then (Inr (), m\<lparr>recursion_depth := recursion_depth m - 1\<rparr>, w)
          else (case close_fault w (length (close_calls w)) of
                  Some e \<Rightarrow> (Inl e, m, w\<lparr>close_calls := close_calls w @ [s]\<rparr>)
                | None \<Rightarrow> (Inr (), m\<lparr>async_session := None\<rparr>,
                    w\<lparr>close_calls := close_calls w @ [s]\<rparr>)))"
    by (simp add: async_close_closed async_close_nested async_close_outermost
        async_close_outermost_fail split: option.splits)
  show ?thesis
    unfolding start close by (simp split: option.splits)
qed

theorem disjoint_effects_witness:
  "async_session (fresh_manager\<lparr>async_session := Some (Session 0)\<rparr>) = Some (Session 0) \<and>
   async_session (fst (snd (async_start
      (fresh_manager\<lparr>async_session := Some (Session 0)\<rparr>) fresh_world))) = Some (Session 0) \<and>
   config (fst (snd (async_close
      (fresh_manager\<lparr>async_session := Some (Session 0)\<rparr>) fresh_world))) = test_config"
proof -
  have held: "async_session (fresh_manager\<lparr>async_session := Some (Session 0)\<rparr>) =
      Some (Session 0)"
    and cfg: "config (fresh_manager\<lparr>async_session := Some (Session 0)\<rparr>) = test_config"
    by (simp_all add: fresh_manager_def)
  from disjoint_effects [of "fresh_manager\<lparr>async_session := Some (Session 0)\<rparr>" fresh_world]
    held cfg
  show ?thesis by simp
qed

end
